theory Spec2Isabelle
  imports Main
begin

section \<open>JavaScript values\<close>

text \<open>
  Strings are sequences of code units; the model covers the code units U+0000..U+00FF
  (one \<^typ>\<open>char\<close> each). A thrown value is an error object carrying its message.
  \<^verbatim>\<open>Array(count)\<close> throws a RangeError for a length outside 0..2^32-1.
\<close>

datatype js_error = Error (message: string) | RangeError (message: string)

text \<open>\<^verbatim>\<open>x || d\<close> on an optional string: undefined and the empty string are falsy.\<close>

definition or_default :: "string option \<Rightarrow> string \<Rightarrow> string" where
  "or_default x d = (case x of None \<Rightarrow> d | Some s \<Rightarrow> if s = [] then d else s)"

text \<open>The truth value of an optional string in a condition.\<close>

definition truthy :: "string option \<Rightarrow> bool" where
  "truthy x = (case x of None \<Rightarrow> False | Some s \<Rightarrow> s \<noteq> [])"

text \<open>A value interpolated into a template literal: undefined prints as \<^verbatim>\<open>undefined\<close>.\<close>

definition interpolate :: "string option \<Rightarrow> string" where
  "interpolate x = (case x of None \<Rightarrow> ''undefined'' | Some s \<Rightarrow> s)"

fun strip_prefix :: "string \<Rightarrow> string \<Rightarrow> string option" where
  "strip_prefix [] s = Some s"
| "strip_prefix (p # ps) [] = None"
| "strip_prefix (p # ps) (c # cs) = (if p = c then strip_prefix ps cs else None)"

text \<open>\<^verbatim>\<open>s.includes(needle)\<close>: the needle occurs at some position of s.\<close>

fun js_includes :: "string \<Rightarrow> string \<Rightarrow> bool" where
  "js_includes [] needle = (needle = [])"
| "js_includes (c # cs) needle =
     (case strip_prefix needle (c # cs) of Some _ \<Rightarrow> True | None \<Rightarrow> js_includes cs needle)"

text \<open>\<^verbatim>\<open>s.trim()\<close>: white space and line terminators are removed at both ends.\<close>

definition js_whitespace :: "char \<Rightarrow> bool" where
  "js_whitespace c \<longleftrightarrow>
     c \<in> {CHR 0x09, CHR 0x0A, CHR 0x0B, CHR 0x0C, CHR 0x0D, CHR 0x20, CHR 0xA0}"

definition trim :: "string \<Rightarrow> string" where
  "trim s = rev (dropWhile js_whitespace (rev (dropWhile js_whitespace s)))"

section \<open>The two regular expressions of the service\<close>

text \<open>
  Greedy quantifiers with backtracking, in continuation-passing style: the quantifier
  first tries to take one more character, and hands what it took and the rest to the
  continuation \<open>k\<close> only when the longer attempt has failed.
\<close>

fun plus_greedy :: "(char \<Rightarrow> bool) \<Rightarrow> (string \<Rightarrow> string \<Rightarrow> 'a option) \<Rightarrow> string \<Rightarrow> string \<Rightarrow> 'a option" where
  "plus_greedy P k acc [] = None"
| "plus_greedy P k acc (c # cs) =
     (if P c then
        (case plus_greedy P k (acc @ [c]) cs of
           Some r \<Rightarrow> Some r
         | None \<Rightarrow> k (acc @ [c]) cs)
      else None)"

fun star_greedy :: "(char \<Rightarrow> bool) \<Rightarrow> (string \<Rightarrow> string \<Rightarrow> 'a option) \<Rightarrow> string \<Rightarrow> string \<Rightarrow> 'a option" where
  "star_greedy P k acc [] = k acc []"
| "star_greedy P k acc (c # cs) =
     (if P c then
        (case star_greedy P k (acc @ [c]) cs of
           Some r \<Rightarrow> Some r
         | None \<Rightarrow> k acc (c # cs))
      else k acc (c # cs))"

text \<open>The class \<^verbatim>\<open>[a-zA-Z0-9]\<close>, the class \<^verbatim>\<open>[a-zA-Z0-9-.+]\<close> and the dot (anything
  but a line terminator).\<close>

definition alnum :: "char \<Rightarrow> bool" where
  "alnum c \<longleftrightarrow>
     c \<in> set (''abcdefghijklmnopqrstuvwxyz'' @ ''ABCDEFGHIJKLMNOPQRSTUVWXYZ'' @ ''0123456789'')"

definition subtype_char :: "char \<Rightarrow> bool" where
  "subtype_char c \<longleftrightarrow> alnum c \<or> c \<in> set ''-.+''"

definition dot :: "char \<Rightarrow> bool" where
  "dot c \<longleftrightarrow> c \<noteq> CHR 0x0A \<and> c \<noteq> CHR 0x0D"

text \<open>
  \<^verbatim>\<open>/data:([a-zA-Z0-9]+\/[a-zA-Z0-9-.+]+).*,.*/\<close> tried at the start of \<open>s\<close>; the result is
  capture group 1.
\<close>

definition mime_match_here :: "string \<Rightarrow> string option" where
  "mime_match_here s =
     (case strip_prefix ''data:'' s of
        None \<Rightarrow> None
      | Some s1 \<Rightarrow>
          plus_greedy alnum (\<lambda>a r1.
            case r1 of
              [] \<Rightarrow> None
            | c # r2 \<Rightarrow>
                if c = CHR ''/'' then
                  plus_greedy subtype_char (\<lambda>b r3.
                    star_greedy dot (\<lambda>_ r4.
                      case r4 of
                        [] \<Rightarrow> None
                      | d # r5 \<Rightarrow>
                          if d = CHR '','' then star_greedy dot (\<lambda>_ _. Some (a @ ''/'' @ b)) [] r5
                          else None) [] r3) [] r2
                else None) [] s1)"

text \<open>\<^verbatim>\<open>img.match(...)?.[1]\<close>: the pattern is not anchored, so every start position is
  tried from the left.\<close>

fun mime_match :: "string \<Rightarrow> string option" where
  "mime_match [] = mime_match_here []"
| "mime_match (c # cs) =
     (case mime_match_here (c # cs) of Some g \<Rightarrow> Some g | None \<Rightarrow> mime_match cs)"

text \<open>
  \<^verbatim>\<open>img.replace(/^data:image\/(png|jpeg|jpg|webp);base64,/, '')\<close>: anchored at the start, the
  alternatives tried in their order; without a match the string is returned as it is.
\<close>

fun first_stripped :: "string list \<Rightarrow> string \<Rightarrow> string option" where
  "first_stripped [] s = None"
| "first_stripped (t # ts) s =
     (case strip_prefix (''data:image/'' @ t @ '';base64,'') s of
        Some rest \<Rightarrow> Some rest
      | None \<Rightarrow> first_stripped ts s)"

definition cleanBase64 :: "string \<Rightarrow> string" where
  "cleanBase64 img =
     (case first_stripped [''png'', ''jpeg'', ''jpg'', ''webp''] img of
        Some rest \<Rightarrow> rest
      | None \<Rightarrow> img)"

definition mimeType_of :: "string \<Rightarrow> string" where
  "mimeType_of img = or_default (mime_match img) ''image/png''"

section \<open>The remote service\<close>

text \<open>
  The types of the generative-AI SDK that the service reads and writes. A field that
  may be undefined is an \<open>option\<close>. \<open>response_text\<close> is the \<^verbatim>\<open>text\<close> accessor of a
  response, \<open>part_text\<close> the \<^verbatim>\<open>text\<close> field of a part, \<open>op_done\<close> and \<open>op_response\<close> the
  \<^verbatim>\<open>done\<close> and \<^verbatim>\<open>response\<close> fields of an operation.
\<close>

record js_blob =
  data :: "string option"
  mimeType :: "string option"

record js_part =
  part_text :: "string option"
  inlineData :: "js_blob option"

record js_content =
  parts :: "js_part list option"

record js_candidate =
  content :: "js_content option"

record content_response =
  candidates :: "js_candidate list option"
  response_text :: "string option"

datatype contents = Text string | Parts "js_part list"

record image_config =
  cfg_aspectRatio :: string
  imageSize :: "string option"

text \<open>A request of \<^verbatim>\<open>ai.models.generateContent\<close>; \<open>config\<close> is the \<^verbatim>\<open>imageConfig\<close> of its
  \<^verbatim>\<open>config\<close> object, absent for a text request.\<close>

record content_request =
  model :: string
  contents :: contents
  config :: "image_config option"

record video_config =
  numberOfVideos :: nat
  video_resolution :: string
  video_aspectRatio :: string

record video_image =
  imageBytes :: string
  image_mimeType :: string

record video_payload =
  payload_model :: string
  payload_prompt :: string
  payload_config :: video_config
  payload_image :: "video_image option"

record js_video =
  uri :: "string option"

record generated_video =
  video :: "js_video option"

record videos_response =
  generatedVideos :: "generated_video list option"

record operation =
  op_name :: string
  op_done :: "bool option"
  op_response :: "videos_response option"

record fetch_response =
  ok :: bool
  blob :: "js_error + string"

text \<open>
  A promise is given by the time at which it settles and by its outcome: rejected with
  an error (\<open>Inl\<close>) or fulfilled with a value (\<open>Inr\<close>).
\<close>

record 'a promise =
  settled_at :: nat
  outcome :: "js_error + 'a"

text \<open>
  The remote collaborators, as a stub that a test would supply. \<open>generateContent\<close> and
  \<open>getVideosOperation\<close> take the number of the call (from 0, in the order in which the
  calls are issued), so that two calls with the same request can be answered differently.
\<close>

record remote =
  generateContent :: "nat \<Rightarrow> content_request \<Rightarrow> content_response promise"
  generateVideos :: "video_payload \<Rightarrow> js_error + operation"
  getVideosOperation :: "nat \<Rightarrow> operation \<Rightarrow> js_error + operation"
  fetch :: "string \<Rightarrow> js_error + fetch_response"
  createObjectURL :: "string \<Rightarrow> string"
  API_KEY :: "string option"

text \<open>What a run does to the outside world, in the order in which it does it.\<close>

datatype event =
    GenerateContent content_request
  | GenerateVideos video_payload
  | Sleep nat
  | GetVideosOperation operation
  | Fetch string

subsection \<open>Promise.all\<close>

text \<open>
  \<^verbatim>\<open>Promise.all\<close> rejects with the error of the promise that is rejected first in time
  (the leftmost one among those of the same time); when none is rejected it is
  fulfilled with the values at the positions of their promises.
\<close>

fun first_rejected :: "'a promise list \<Rightarrow> (nat \<times> js_error) option" where
  "first_rejected [] = None"
| "first_rejected (p # ps) =
     (case outcome p of
        Inr _ \<Rightarrow> first_rejected ps
      | Inl e \<Rightarrow>
          (case first_rejected ps of
             None \<Rightarrow> Some (settled_at p, e)
           | Some (t, e') \<Rightarrow> if settled_at p \<le> t then Some (settled_at p, e) else Some (t, e')))"

fun fulfilled_values :: "'a promise list \<Rightarrow> 'a list" where
  "fulfilled_values [] = []"
| "fulfilled_values (p # ps) =
     (case outcome p of
        Inr v \<Rightarrow> v # fulfilled_values ps
      | Inl _ \<Rightarrow> fulfilled_values ps)"

definition Promise_all :: "'a promise list \<Rightarrow> js_error + 'a list" where
  "Promise_all ps =
     (case first_rejected ps of
        Some (_, e) \<Rightarrow> Inl e
      | None \<Rightarrow> Inr (fulfilled_values ps))"

section \<open>services/geminiService.ts: image generation\<close>

record ImageGenerationOptions =
  aspectRatio :: "string option"
  resolution :: "string option"
  numberOfImages :: "int option"

text \<open>\<^verbatim>\<open>response.candidates?.[0]?.content?.parts\<close>\<close>

definition first_candidate_parts :: "content_response \<Rightarrow> js_part list option" where
  "first_candidate_parts response =
     (case candidates response of
        None \<Rightarrow> None
      | Some [] \<Rightarrow> None
      | Some (c # _) \<Rightarrow>
          (case content c of
             None \<Rightarrow> None
           | Some ct \<Rightarrow> parts ct))"

text \<open>The inner loop: the data of the first part with \<^verbatim>\<open>part.inlineData && part.inlineData.data\<close>
  truthy, where the loop breaks.\<close>

fun first_inline_data :: "js_part list \<Rightarrow> string option" where
  "first_inline_data [] = None"
| "first_inline_data (p # ps) =
     (case inlineData p of
        None \<Rightarrow> first_inline_data ps
      | Some b \<Rightarrow>
          (case data b of
             None \<Rightarrow> first_inline_data ps
           | Some d \<Rightarrow> if d \<noteq> [] then Some d else first_inline_data ps))"

text \<open>The outer loop over the responses, pushing onto \<open>imageUrls\<close>.\<close>

fun collect_image_urls :: "content_response list \<Rightarrow> string list \<Rightarrow> string list" where
  "collect_image_urls [] imageUrls = imageUrls"
| "collect_image_urls (response # responses) imageUrls =
     (case first_candidate_parts response of
        None \<Rightarrow> collect_image_urls responses imageUrls
      | Some ps \<Rightarrow>
          (case first_inline_data ps of
             None \<Rightarrow> collect_image_urls responses imageUrls
           | Some d \<Rightarrow> collect_image_urls responses (imageUrls @ [''data:image/png;base64,'' @ d])))"

definition isHighQuality :: "ImageGenerationOptions option \<Rightarrow> bool" where
  "isHighQuality options \<longleftrightarrow>
     Option.bind options resolution = Some ''2K'' \<or> Option.bind options resolution = Some ''4K''"

text \<open>\<^verbatim>\<open>options?.numberOfImages || 1\<close>: undefined and 0 are falsy. The number of images
  is a number with an integer value, as the batch-size buttons of the component set it.\<close>

definition image_count :: "ImageGenerationOptions option \<Rightarrow> int" where
  "image_count options =
     (case Option.bind options numberOfImages of
        None \<Rightarrow> 1
      | Some n \<Rightarrow> if n = 0 then 1 else n)"

definition build_imageConfig :: "ImageGenerationOptions option \<Rightarrow> image_config" where
  "build_imageConfig options =
     (let imageConfig = \<lparr>cfg_aspectRatio = or_default (Option.bind options aspectRatio) ''1:1'',
                          imageSize = None\<rparr>
      in if isHighQuality options \<and> truthy (Option.bind options resolution)
         then imageConfig\<lparr>imageSize := Option.bind options resolution\<rparr>
         else imageConfig)"

definition refinedPrompt :: "string \<Rightarrow> string" where
  "refinedPrompt prompt =
     prompt @ '' . Do not generate a grid or collage. Generate a single high-quality image.''"

text \<open>
  The part of both image operations after the request is built: \<open>count\<close> calls issued
  one after the other, joined by \<^verbatim>\<open>Promise.all\<close>, then the two loops and the check of the
  list. The result is the calls issued and what the operation returns or throws.
\<close>

definition fan_out :: "remote \<Rightarrow> int \<Rightarrow> content_request \<Rightarrow> event list \<times> (js_error + string list)" where
  "fan_out r count request =
     (if count < 0 \<or> 4294967295 < count then ([], Inl (RangeError ''Invalid array length''))
      else
        let promises = map (\<lambda>i. generateContent r i request) [0..<nat count];
            issued = map (\<lambda>i. GenerateContent request) [0..<nat count]
        in case Promise_all promises of
             Inl e \<Rightarrow> (issued, Inl e)
           | Inr responses \<Rightarrow>
               (let imageUrls = collect_image_urls responses []
                in if length imageUrls = 0 then (issued, Inl (Error ''No image data found in responses''))
                   else (issued, Inr imageUrls)))"

definition text_request :: "string \<Rightarrow> ImageGenerationOptions option \<Rightarrow> content_request" where
  "text_request prompt options =
     \<lparr>model = (if isHighQuality options then ''gemini-3-pro-image-preview'' else ''gemini-2.5-flash-image''),
      contents = Parts [\<lparr>part_text = Some (refinedPrompt prompt), inlineData = None\<rparr>],
      config = Some (build_imageConfig options)\<rparr>"

definition generateImageFromText ::
  "remote \<Rightarrow> string \<Rightarrow> ImageGenerationOptions option \<Rightarrow> event list \<times> (js_error + string list)" where
  "generateImageFromText r prompt options =
     fan_out r (image_count options) (text_request prompt options)"

text \<open>The loop over \<open>referenceImages\<close> pushes one part for each image, then the text part
  is pushed.\<close>

definition image_part :: "string \<Rightarrow> js_part" where
  "image_part img =
     \<lparr>part_text = None,
      inlineData = Some \<lparr>data = Some (cleanBase64 img), mimeType = Some (mimeType_of img)\<rparr>\<rparr>"

definition image_request_parts :: "string list \<Rightarrow> string \<Rightarrow> js_part list" where
  "image_request_parts referenceImages prompt =
     map image_part referenceImages @ [\<lparr>part_text = Some (refinedPrompt prompt), inlineData = None\<rparr>]"

definition image_request :: "string list \<Rightarrow> string \<Rightarrow> ImageGenerationOptions option \<Rightarrow> content_request" where
  "image_request referenceImages prompt options =
     \<lparr>model = (if isHighQuality options then ''gemini-3-pro-image-preview'' else ''gemini-2.5-flash-image''),
      contents = Parts (image_request_parts referenceImages prompt),
      config = Some (build_imageConfig options)\<rparr>"

definition generateImageFromImage ::
  "remote \<Rightarrow> string list \<Rightarrow> string \<Rightarrow> ImageGenerationOptions option \<Rightarrow> event list \<times> (js_error + string list)" where
  "generateImageFromImage r referenceImages prompt options =
     fan_out r (image_count options) (image_request referenceImages prompt options)"

section \<open>services/geminiService.ts: enhancePrompt\<close>

datatype prompt_type = Image | Video

definition unlines :: "string list \<Rightarrow> string" where
  "unlines ls = concat (map (\<lambda>l. l @ [CHR 0x0A]) ls)"

definition image_instructions :: "string \<Rightarrow> string" where
  \<open>image_instructions originalPrompt =
     unlines
      [''You are an expert Director of Photography (DP) creating a shot list for a high-budget commercial. '',
       ''      Rewrite the following prompt to be a highly detailed, photorealistic image description. '',
       ''      '',
       ''      CRITICAL: You MUST include specific technical details to achieve a "film look", such as:'',
       ''      - Camera Bodies: e.g., Arri Alexa LF, RED V-RAPTOR, Sony Venice.'',
       ''      - Lenses: e.g., Panavision C-Series Anamorphic, Canon K35, 85mm Prime.'',
       ''      - Filters/Effects: e.g., Tiffen Black Pro-Mist 1/4, Cinebloom, Halation, Film Grain.'',
       ''      - Lighting: e.g., Volumetric fog, Rembrandt lighting, Golden Hour, Chiaroscuro.'',
       ''      '',
       ''      Keep it under 70 words. Focus purely on the visual aesthetic and composition.'',
       ''      '']
     @ ''      Original prompt: "'' @ originalPrompt @ ''"''\<close>

definition video_instructions :: "string \<Rightarrow> string" where
  \<open>video_instructions originalPrompt =
     unlines
      [''You are an expert Film Director and Cinematographer. '',
       ''      Rewrite the following prompt to be a detailed scene description for an AI Video Generator (Veo).'',
       ''      '',
       ''      CRITICAL: Unlike an image, a video prompt MUST describe MOTION.'',
       ''      1. CAMERA MOVEMENT: Explicitly describe the camera move (e.g., Slow Dolly In, Truck Left, Low Angle Tracking Shot, Aerial Drone Flyover, Handheld chaos).'',
       ''      2. SUBJECT ACTION: Describe exactly how the subject moves (e.g., turning head to camera, running towards lens, rain falling).'',
       ''      3. LOOK: Include cinematic lens details (e.g., Anamorphic flare, Shallow depth of field) but prioritize motion.'',
       ''      '',
       ''      Keep it under 70 words.'',
       ''      '']
     @ ''      Original prompt: "'' @ originalPrompt @ ''"''\<close>

text \<open>
  One text-generation call is awaited: a rejection is thrown on to the caller.
  \<^verbatim>\<open>response.text?.trim() || originalPrompt\<close> falls back on an undefined text and on a
  text that is empty once trimmed. The type defaults to \<open>Image\<close> when it is not passed.
\<close>

definition enhancePrompt :: "remote \<Rightarrow> string \<Rightarrow> prompt_type option \<Rightarrow> event list \<times> (js_error + string)" where
  "enhancePrompt r originalPrompt type =
     (let instructions =
            (case type of
               None \<Rightarrow> image_instructions originalPrompt
             | Some Image \<Rightarrow> image_instructions originalPrompt
             | Some Video \<Rightarrow> video_instructions originalPrompt);
          request = \<lparr>model = ''gemini-2.5-flash'', contents = Text instructions, config = None\<rparr>
      in ([GenerateContent request],
          case outcome (generateContent r 0 request) of
            Inl e \<Rightarrow> Inl e
          | Inr response \<Rightarrow> Inr (or_default (map_option trim (response_text response)) originalPrompt)))"

section \<open>services/geminiService.ts: generateVideo\<close>

text \<open>
  The polling loop has no bound: it is a partial function, and \<open>None\<close> is a run that
  never leaves the loop. \<open>n\<close> counts the status calls made so far, \<open>tr\<close> is what the run
  has done so far. \<^verbatim>\<open>!operation.done\<close> holds for false and for undefined.
\<close>

partial_function (option) poll_loop ::
  "remote \<Rightarrow> nat \<Rightarrow> operation \<Rightarrow> event list \<Rightarrow> (event list \<times> (js_error + operation)) option" where
  "poll_loop r n operation tr =
     (if op_done operation = Some True then Some (tr, Inr operation)
      else
        (case getVideosOperation r n operation of
           Inl e \<Rightarrow> Some (tr @ [Sleep 5000, GetVideosOperation operation], Inl e)
         | Inr operation' \<Rightarrow>
             poll_loop r (Suc n) operation' (tr @ [Sleep 5000, GetVideosOperation operation])))"

declare poll_loop.simps [code]

text \<open>\<^verbatim>\<open>operation.response?.generatedVideos?.[0]?.video?.uri\<close>\<close>

definition downloadLink :: "operation \<Rightarrow> string option" where
  "downloadLink operation =
     (case op_response operation of
        None \<Rightarrow> None
      | Some resp \<Rightarrow>
          (case generatedVideos resp of
             None \<Rightarrow> None
           | Some [] \<Rightarrow> None
           | Some (g # _) \<Rightarrow>
               (case video g of
                  None \<Rightarrow> None
                | Some v \<Rightarrow> uri v)))"

definition video_request :: "string \<Rightarrow> string option \<Rightarrow> video_payload" where
  "video_request prompt inputImage =
     (let config = \<lparr>numberOfVideos = 1, video_resolution = ''720p'', video_aspectRatio = ''16:9''\<rparr>;
          payload = \<lparr>payload_model = ''veo-3.1-fast-generate-preview'', payload_prompt = prompt,
                     payload_config = config, payload_image = None\<rparr>
      in case inputImage of
           None \<Rightarrow> payload
         | Some img \<Rightarrow>
             if img \<noteq> [] then
               payload\<lparr>payload_image :=
                 Some \<lparr>imageBytes = cleanBase64 img, image_mimeType = mimeType_of img\<rparr>\<rparr>
             else payload)"

text \<open>What follows the loop: the locator is read, the bytes are fetched with the key
  appended, and an object URL is made of them.\<close>

definition download :: "remote \<Rightarrow> operation \<Rightarrow> event list \<Rightarrow> event list \<times> (js_error + string)" where
  "download r operation tr =
     (if \<not> truthy (downloadLink operation)
      then (tr, Inl (Error ''Video generation failed or no URI returned.''))
      else
        let url = interpolate (downloadLink operation) @ ''&key='' @ interpolate (API_KEY r)
        in case fetch r url of
             Inl e \<Rightarrow> (tr @ [Fetch url], Inl e)
           | Inr videoResponse \<Rightarrow>
               if \<not> ok videoResponse
               then (tr @ [Fetch url], Inl (Error ''Failed to download generated video.''))
               else
                 (case blob videoResponse of
                    Inl e \<Rightarrow> (tr @ [Fetch url], Inl e)
                  | Inr b \<Rightarrow> (tr @ [Fetch url], Inr (createObjectURL r b))))"

definition generateVideo ::
  "remote \<Rightarrow> string \<Rightarrow> string option \<Rightarrow> (event list \<times> (js_error + string)) option" where
  "generateVideo r prompt inputImage =
     (let payload = video_request prompt inputImage
      in case generateVideos r payload of
           Inl e \<Rightarrow> Some ([GenerateVideos payload], Inl e)
         | Inr operation \<Rightarrow>
             (case poll_loop r 0 operation [GenerateVideos payload] of
                None \<Rightarrow> None
              | Some (tr, Inl e) \<Rightarrow> Some (tr, Inl e)
              | Some (tr, Inr operation') \<Rightarrow> Some (download r operation' tr)))"

section \<open>components/Generator.tsx: the generation handler\<close>

text \<open>Modelled from the spec: the enumeration \<^verbatim>\<open>GenerationType\<close> of \<^verbatim>\<open>types.ts\<close>, with the
  three kinds of request that the spec's data model lists and the handler tests for.\<close>

datatype GenerationType = TEXT_TO_IMAGE | IMAGE_TO_IMAGE | TEXT_TO_VIDEO

text \<open>The state of the component that the handler reads and sets. \<open>cur_aspectRatio\<close>,
  \<open>cur_resolution\<close> and \<open>cur_numberOfImages\<close> are the state variables \<^verbatim>\<open>aspectRatio\<close>,
  \<^verbatim>\<open>resolution\<close> and \<^verbatim>\<open>numberOfImages\<close>.\<close>

record generator =
  activeTab :: GenerationType
  prompt :: string
  isGenerating :: bool
  resultUrls :: "string list"
  selectedPreviewIndex :: nat
  error :: "string option"
  cur_aspectRatio :: string
  cur_resolution :: string
  cur_numberOfImages :: int
  referenceImages :: "string list"
  hasPaidKey :: bool





section \<open>Notions of the specification\<close>

text \<open>An inline binary part is a part that carries inline data: its \<^verbatim>\<open>inlineData\<close> is there
  and has a \<^verbatim>\<open>data\<close> string that is not empty.\<close>

definition inline_binary :: "js_part \<Rightarrow> bool" where
  "inline_binary p = (case inlineData p of None \<Rightarrow> False | Some b \<Rightarrow> truthy (data b))"

text \<open>The response has an inline binary part among the parts of its first candidate.\<close>

definition has_inline_binary :: "content_response \<Rightarrow> bool" where
  "has_inline_binary response =
     (case first_candidate_parts response of
        None \<Rightarrow> False
      | Some ps \<Rightarrow> list_ex inline_binary ps)"

text \<open>The result URL that a response stands for: the PNG data URL of the data of the
  first inline binary part of its first candidate, if there is one.\<close>

definition response_image_url :: "content_response \<Rightarrow> string option" where
  "response_image_url response =
     (case first_candidate_parts response of
        None \<Rightarrow> None
      | Some ps \<Rightarrow>
          (case find inline_binary ps of
             None \<Rightarrow> None
           | Some p \<Rightarrow>
               (case inlineData p of
                  None \<Rightarrow> None
                | Some b \<Rightarrow> map_option (\<lambda>d. ''data:image/png;base64,'' @ d) (data b))))"

section \<open>Stubs of the remote service\<close>

definition binary_response :: "string \<Rightarrow> content_response" where
  "binary_response d =
     \<lparr>candidates = Some [\<lparr>content = Some \<lparr>parts = Some
        [\<lparr>part_text = None, inlineData = Some \<lparr>data = Some d, mimeType = Some ''image/png''\<rparr>\<rparr>]\<rparr>\<rparr>],
      response_text = None\<rparr>"

definition text_response :: "string option \<Rightarrow> content_response" where
  "text_response t =
     \<lparr>candidates = Some [\<lparr>content = Some \<lparr>parts = Some
        [\<lparr>part_text = t, inlineData = None\<rparr>]\<rparr>\<rparr>],
      response_text = t\<rparr>"

definition video_operation :: "bool \<Rightarrow> string option \<Rightarrow> operation" where
  "video_operation d u =
     \<lparr>op_name = ''operations/1'', op_done = Some d,
      op_response = Some \<lparr>generatedVideos = Some [\<lparr>video = Some \<lparr>uri = u\<rparr>\<rparr>]\<rparr>\<rparr>"

text \<open>A stub that answers the i-th generation call with \<open>g i\<close>, the submission of a video
  with \<open>ops 0\<close> and the n-th status call with \<open>ops (n + 1)\<close>; every download succeeds.\<close>

definition stub_remote :: "(nat \<Rightarrow> content_response promise) \<Rightarrow> (nat \<Rightarrow> operation) \<Rightarrow> remote" where
  "stub_remote g ops =
     \<lparr>generateContent = (\<lambda>i _. g i),
      generateVideos = (\<lambda>_. Inr (ops 0)),
      getVideosOperation = (\<lambda>n _. Inr (ops (Suc n))),
      fetch = (\<lambda>_. Inr \<lparr>ok = True, blob = Inr ''bytes''\<rparr>),
      createObjectURL = (\<lambda>b. ''blob:'' @ b),
      API_KEY = Some ''KEY''\<rparr>"

text \<open>Three generation calls that all succeed and complete in the reverse of the order in
  which they were issued: the later the call, the earlier its answer.\<close>

definition reversed_completion :: "nat \<Rightarrow> content_response promise" where
  "reversed_completion i =
     \<lparr>settled_at = 10 - i, outcome = Inr (binary_response (replicate (Suc i) (CHR ''A'')))\<rparr>"

definition answering :: "js_error + content_response \<Rightarrow> nat \<Rightarrow> content_response promise" where
  "answering res i = \<lparr>settled_at = i, outcome = res\<rparr>"

definition never_done :: "nat \<Rightarrow> operation" where
  "never_done n = video_operation False None"

text \<open>An operation that is not done when submitted nor at the first status call, and done
  with a locator at the second.\<close>

definition done_on_third :: "nat \<Rightarrow> operation" where
  "done_on_third n =
     (if n < 2 then video_operation False None
      else video_operation True (Some ''https://videos.example/v1?alt=media''))"

text \<open>An operation that is done at the first status call, without a locator.\<close>

definition done_without_uri :: "nat \<Rightarrow> operation" where
  "done_without_uri n =
     (if n < 1 then video_operation False None else video_operation True None)"

definition count_options :: "int \<Rightarrow> ImageGenerationOptions option" where
  "count_options n = Some \<lparr>aspectRatio = None, resolution = Some ''1K'', numberOfImages = Some n\<rparr>"

definition hq_options :: "ImageGenerationOptions option" where
  "hq_options = Some \<lparr>aspectRatio = Some ''16:9'', resolution = Some ''4K'', numberOfImages = Some 2\<rparr>"

text \<open>The request that \<open>enhancePrompt\<close> sends for the prompt "a cat" in video mode.\<close>

definition enhance_request :: content_request where
  "enhance_request = \<lparr>model = ''gemini-2.5-flash'', contents = Text (video_instructions ''a cat''), config = None\<rparr>"


section \<open>The fan-out\<close>

lemma fan_out_issued:
  "fst (fan_out r count request) =
     (if count < 0 \<or> 4294967295 < count then [] else replicate (nat count) (GenerateContent request))"
  by (simp add: fan_out_def Let_def map_replicate_const split: sum.split)

lemma all_fulfilled:
  "list_all2 (\<lambda>p v. outcome p = Inr v) ps vs \<Longrightarrow> Promise_all ps = Inr vs"
proof -
  assume a: "list_all2 (\<lambda>p v. outcome p = Inr v) ps vs"
  then have "first_rejected ps = None \<and> fulfilled_values ps = vs"
    by (induction rule: list_all2_induct) auto
  then show ?thesis by (simp add: Promise_all_def)
qed

lemma Promise_all_indexed:
  assumes "\<forall>i<n. outcome (g i) = Inr (resp i)"
  shows "Promise_all (map g [0..<n]) = Inr (map resp [0..<n])"
proof (rule all_fulfilled)
  show "list_all2 (\<lambda>p v. outcome p = Inr v) (map g [0..<n]) (map resp [0..<n])"
    using assms by (simp add: list_all2_conv_all_nth)
qed

lemma first_inline_data_find:
  "first_inline_data ps =
     (case find inline_binary ps of
        None \<Rightarrow> None
      | Some p \<Rightarrow> (case inlineData p of None \<Rightarrow> None | Some b \<Rightarrow> data b))"
  by (induction ps) (auto simp: inline_binary_def truthy_def split: option.splits)

lemma collect_step:
  "collect_image_urls (response # responses) imageUrls =
     collect_image_urls responses
       (case response_image_url response of None \<Rightarrow> imageUrls | Some u \<Rightarrow> imageUrls @ [u])"
  by (simp add: response_image_url_def first_inline_data_find split: option.splits)

lemma collect_all:
  "\<forall>resp\<in>set rs. response_image_url resp \<noteq> None \<Longrightarrow>
     map Some (collect_image_urls rs acc) = map Some acc @ map response_image_url rs"
proof (induction rs arbitrary: acc)
  case Nil
  then show ?case by simp
next
  case (Cons resp rs)
  then obtain u where u: "response_image_url resp = Some u" by auto
  from Cons have "map Some (collect_image_urls rs (acc @ [u])) = map Some (acc @ [u]) @ map response_image_url rs"
    by simp
  then show ?case by (simp add: collect_step u del: collect_image_urls.simps)
qed

lemma collect_none:
  "\<forall>resp\<in>set rs. response_image_url resp = None \<Longrightarrow> collect_image_urls rs acc = acc"
  by (induction rs arbitrary: acc) (simp_all only: collect_step collect_image_urls.simps list.set, simp_all)

lemma find_inline_binary:
  "find inline_binary ps = Some p \<Longrightarrow> \<exists>b d. inlineData p = Some b \<and> data b = Some d \<and> d \<noteq> []"
proof -
  assume "find inline_binary ps = Some p"
  then have "inline_binary p" by (auto simp: find_Some_iff)
  then show ?thesis by (auto simp: inline_binary_def truthy_def split: option.splits)
qed

lemma has_inline_binary_url:
  "has_inline_binary resp \<longleftrightarrow> response_image_url resp \<noteq> None"
proof (cases "first_candidate_parts resp")
  case None
  then show ?thesis by (simp add: has_inline_binary_def response_image_url_def)
next
  case (Some ps)
  show ?thesis
  proof (cases "find inline_binary ps")
    case None
    moreover from None have "\<not> list_ex inline_binary ps" by (simp add: list_ex_iff find_None_iff)
    ultimately show ?thesis using Some
      by (simp add: has_inline_binary_def response_image_url_def)
  next
    case (Some p)
    from find_inline_binary[OF Some] obtain b d where "inlineData p = Some b" "data b = Some d" by blast
    moreover from Some have "list_ex inline_binary ps" by (auto simp: list_ex_iff find_Some_iff)
    ultimately show ?thesis using Some \<open>first_candidate_parts resp = Some ps\<close>
      by (simp add: has_inline_binary_def response_image_url_def)
  qed
qed

lemma fan_out_success:
  assumes "1 \<le> count" "count \<le> 4294967295"
    and "\<forall>i<nat count. outcome (generateContent r i request) = Inr (resp i) \<and> has_inline_binary (resp i)"
  shows "\<exists>urls. snd (fan_out r count request) = Inr urls \<and> length urls = nat count \<and>
           (\<forall>i<nat count. Some (urls ! i) = response_image_url (resp i))"
proof -
  let ?n = "nat count"
  let ?urls = "collect_image_urls (map resp [0..<?n]) []"
  have all: "Promise_all (map (\<lambda>i. generateContent r i request) [0..<?n]) = Inr (map resp [0..<?n])"
    using assms(3) by (intro Promise_all_indexed) simp
  have "\<forall>x\<in>set (map resp [0..<?n]). response_image_url x \<noteq> None"
    using assms(3) by (auto simp: has_inline_binary_url)
  then have m: "map Some ?urls = map response_image_url (map resp [0..<?n])"
    using collect_all[of "map resp [0..<?n]" "[]"] by simp
  have len: "length ?urls = ?n"
  proof -
    have "length (map Some ?urls) = length (map response_image_url (map resp [0..<?n]))"
      by (simp only: m)
    then show ?thesis by simp
  qed
  have nth: "Some (?urls ! i) = response_image_url (resp i)" if "i < ?n" for i
  proof -
    have "map Some ?urls ! i = map response_image_url (map resp [0..<?n]) ! i" using m by simp
    then show ?thesis using that len by simp
  qed
  have "length ?urls \<noteq> 0" using len assms(1) by simp
  then have "snd (fan_out r count request) = Inr ?urls"
    using assms(1,2) all by (simp add: fan_out_def Let_def)
  then show ?thesis using len nth by blast
qed

lemma fan_out_empty:
  assumes "0 \<le> count" "count \<le> 4294967295"
    and "\<forall>i<nat count. \<exists>resp. outcome (generateContent r i request) = Inr resp \<and> \<not> has_inline_binary resp"
  shows "snd (fan_out r count request) = Inl (Error ''No image data found in responses'')"
proof -
  let ?n = "nat count"
  from assms(3) obtain resp where
    resp: "\<forall>i<?n. outcome (generateContent r i request) = Inr (resp i) \<and> \<not> has_inline_binary (resp i)"
    by metis
  have all: "Promise_all (map (\<lambda>i. generateContent r i request) [0..<?n]) = Inr (map resp [0..<?n])"
    using resp by (intro Promise_all_indexed) simp
  have "\<forall>x\<in>set (map resp [0..<?n]). response_image_url x = None"
    using resp by (auto simp: has_inline_binary_url)
  then have "collect_image_urls (map resp [0..<?n]) [] = []"
    by (rule collect_none)
  then show ?thesis using assms(1,2) all by (simp add: fan_out_def Let_def)
qed

text \<open>
  C7. Model selection in both image operations depends on the resolution option alone.
  For any prompt, reference images, aspect ratio and count, \<open>generateImageFromText\<close> and
  \<open>generateImageFromImage\<close> each issue as many generation calls as the count says (none
  when the count is not the length of an array), every one of them with the request of
  the operation, and that request names the high-fidelity model when the resolution is
  2K or 4K and the fast model for any other or absent resolution.
\<close>

theorem model_selection_by_resolution:
  "fst (generateImageFromText r txt options) =
     replicate (if image_count options \<le> 4294967295 then nat (image_count options) else 0)
       (GenerateContent (text_request txt options))
   \<and> fst (generateImageFromImage r refs txt options) =
     replicate (if image_count options \<le> 4294967295 then nat (image_count options) else 0)
       (GenerateContent (image_request refs txt options))
   \<and> model (text_request txt options) =
       (if Option.bind options resolution = Some ''2K'' \<or> Option.bind options resolution = Some ''4K''
        then ''gemini-3-pro-image-preview'' else ''gemini-2.5-flash-image'')
   \<and> model (image_request refs txt options) =
       (if Option.bind options resolution = Some ''2K'' \<or> Option.bind options resolution = Some ''4K''
        then ''gemini-3-pro-image-preview'' else ''gemini-2.5-flash-image'')"
proof -
  have n: "(if image_count options < 0 \<or> 4294967295 < image_count options then []
            else replicate (nat (image_count options)) e)
           = replicate (if image_count options \<le> 4294967295 then nat (image_count options) else 0) e"
    for e :: event
    by auto
  show ?thesis
    by (simp add: generateImageFromText_def generateImageFromImage_def fan_out_issued n
          text_request_def image_request_def isHighQuality_def)
qed

theorem model_selection_by_resolution_witness:
  "(\<exists>rq. fst (generateImageFromText (stub_remote reversed_completion never_done) ''a cat'' hq_options)
            = [GenerateContent rq, GenerateContent rq]
          \<and> model rq = ''gemini-3-pro-image-preview'')
   \<and> (\<exists>rq. fst (generateImageFromImage (stub_remote reversed_completion never_done)
                  [''data:image/png;base64,iVBORw0KGgo''] ''a cat'' hq_options)
            = [GenerateContent rq, GenerateContent rq]
          \<and> model rq = ''gemini-3-pro-image-preview'')
   \<and> (\<exists>rq. fst (generateImageFromText (stub_remote reversed_completion never_done) ''a cat'' (count_options 1))
            = [GenerateContent rq]
          \<and> model rq = ''gemini-2.5-flash-image'')
   \<and> (\<exists>rq. fst (generateImageFromImage (stub_remote reversed_completion never_done)
                  [''data:image/png;base64,iVBORw0KGgo''] ''a cat'' (count_options 1))
            = [GenerateContent rq]
          \<and> model rq = ''gemini-2.5-flash-image'')"
proof -
  let ?r = "stub_remote reversed_completion never_done"
  let ?refs = "[''data:image/png;base64,iVBORw0KGgo'']"
  have c: "image_count hq_options = 2" "image_count (count_options 1) = 1"
    by (simp_all add: image_count_def hq_options_def count_options_def)
  have two: "replicate 2 e = [e, e]" for e :: event
    by (simp add: numeral_2_eq_2)
  have res: "Option.bind hq_options resolution = Some ''4K''"
    "Option.bind (count_options 1) resolution = Some ''1K''"
    by (simp_all add: hq_options_def count_options_def)
  note hq = model_selection_by_resolution [of ?r "''a cat''" hq_options ?refs]
  note lo = model_selection_by_resolution [of ?r "''a cat''" "count_options 1" ?refs]
  have 1: "fst (generateImageFromText ?r ''a cat'' hq_options)
             = [GenerateContent (text_request ''a cat'' hq_options), GenerateContent (text_request ''a cat'' hq_options)]
           \<and> model (text_request ''a cat'' hq_options) = ''gemini-3-pro-image-preview''"
    using hq by (simp add: c two res)
  have 2: "fst (generateImageFromImage ?r ?refs ''a cat'' hq_options)
             = [GenerateContent (image_request ?refs ''a cat'' hq_options),
                GenerateContent (image_request ?refs ''a cat'' hq_options)]
           \<and> model (image_request ?refs ''a cat'' hq_options) = ''gemini-3-pro-image-preview''"
    using hq by (simp add: c two res)
  have 3: "fst (generateImageFromText ?r ''a cat'' (count_options 1))
             = [GenerateContent (text_request ''a cat'' (count_options 1))]
           \<and> model (text_request ''a cat'' (count_options 1)) = ''gemini-2.5-flash-image''"
    using lo by (simp add: c res)
  have 4: "fst (generateImageFromImage ?r ?refs ''a cat'' (count_options 1))
             = [GenerateContent (image_request ?refs ''a cat'' (count_options 1))]
           \<and> model (image_request ?refs ''a cat'' (count_options 1)) = ''gemini-2.5-flash-image''"
    using lo by (simp add: c res)
  from 1 2 3 4 show ?thesis by blast
qed

text \<open>
  C1. For every count from 1 to 4: when each of the count generation calls of
  \<open>generateImageFromText\<close> (likewise of \<open>generateImageFromImage\<close>) is fulfilled with a
  response whose first candidate has an inline binary part, the operation returns a list
  of exactly count URLs, and the i-th URL is the one of the response to the i-th call
  issued. Nothing is assumed about the times at which the calls complete.
\<close>

theorem fan_out_submission_order:
  assumes "1 \<le> n" and "n \<le> 4"
    and "Option.bind options numberOfImages = Some n"
  shows "((\<forall>i<nat n. outcome (generateContent r i (text_request txt options)) = Inr (resp i)
                      \<and> has_inline_binary (resp i)) \<longrightarrow>
          (\<exists>urls. snd (generateImageFromText r txt options) = Inr urls \<and> length urls = nat n \<and>
                  (\<forall>i<nat n. Some (urls ! i) = response_image_url (resp i))))
       \<and> ((\<forall>i<nat n. outcome (generateContent r i (image_request refs txt options)) = Inr (resp i)
                      \<and> has_inline_binary (resp i)) \<longrightarrow>
          (\<exists>urls. snd (generateImageFromImage r refs txt options) = Inr urls \<and> length urls = nat n \<and>
                  (\<forall>i<nat n. Some (urls ! i) = response_image_url (resp i))))"
proof -
  have c: "image_count options = n" using assms by (simp add: image_count_def)
  have b: "1 \<le> n" "n \<le> 4294967295" using assms by simp_all
  show ?thesis
    unfolding generateImageFromText_def generateImageFromImage_def c
    using fan_out_success [OF b] by blast
qed

theorem fan_out_submission_order_witness:
  "(\<exists>urls. snd (generateImageFromText (stub_remote reversed_completion never_done) ''a cat'' (count_options 3)) = Inr urls
           \<and> length urls = 3
           \<and> (\<forall>i<3. Some (urls ! i) = Some (''data:image/png;base64,'' @ replicate (Suc i) (CHR ''A''))))
   \<and> (\<exists>urls. snd (generateImageFromImage (stub_remote reversed_completion never_done) [] ''a cat'' (count_options 3)) = Inr urls
           \<and> length urls = 3
           \<and> (\<forall>i<3. Some (urls ! i) = Some (''data:image/png;base64,'' @ replicate (Suc i) (CHR ''A''))))"
proof -
  let ?r = "stub_remote reversed_completion never_done"
  let ?resp = "\<lambda>i. binary_response (replicate (Suc i) (CHR ''A''))"
  have n: "(1::int) \<le> 3" "(3::int) \<le> 4" "Option.bind (count_options 3) numberOfImages = Some 3"
    by (simp_all add: count_options_def)
  have h: "\<forall>i<nat 3. outcome (generateContent ?r i rq) = Inr (?resp i) \<and> has_inline_binary (?resp i)" for rq
    by (simp add: stub_remote_def reversed_completion_def has_inline_binary_def binary_response_def
          first_candidate_parts_def inline_binary_def truthy_def)
  have u: "response_image_url (?resp i) = Some (''data:image/png;base64,'' @ replicate (Suc i) (CHR ''A''))" for i
    by (simp add: response_image_url_def binary_response_def first_candidate_parts_def
          inline_binary_def truthy_def)
  have m: "nat 3 = 3" by simp
  from fan_out_submission_order [OF n, of ?r "''a cat''" ?resp "[]"] h
  show ?thesis unfolding u m by blast
qed

text \<open>
  C2. For every count: when every generation call is fulfilled and no response has an
  inline binary part in its first candidate, \<open>generateImageFromText\<close> and
  \<open>generateImageFromImage\<close> throw the error "No image data found in responses"; they
  do not return an empty list. The count is taken as the service computes it from the
  options and ranges over the lengths that an array can have.
\<close>

theorem empty_result_error:
  assumes "1 \<le> image_count options" and "image_count options \<le> 4294967295"
  shows "((\<forall>i<nat (image_count options).
             \<exists>resp. outcome (generateContent r i (text_request txt options)) = Inr resp
                    \<and> \<not> has_inline_binary resp) \<longrightarrow>
          snd (generateImageFromText r txt options) = Inl (Error ''No image data found in responses''))
       \<and> ((\<forall>i<nat (image_count options).
             \<exists>resp. outcome (generateContent r i (image_request refs txt options)) = Inr resp
                    \<and> \<not> has_inline_binary resp) \<longrightarrow>
          snd (generateImageFromImage r refs txt options) = Inl (Error ''No image data found in responses''))"
proof -
  have b: "0 \<le> image_count options" using assms(1) by simp
  show ?thesis
    unfolding generateImageFromText_def generateImageFromImage_def
    using fan_out_empty [OF b assms(2)] by blast
qed

theorem empty_result_error_witness:
  "snd (generateImageFromText (stub_remote (answering (Inr (text_response (Some ''no picture'')))) never_done)
          ''a cat'' (count_options 2)) = Inl (Error ''No image data found in responses'')
   \<and> snd (generateImageFromImage (stub_remote (answering (Inr (text_response (Some ''no picture'')))) never_done)
          [''data:image/png;base64,AAAA''] ''a cat'' (count_options 2)) = Inl (Error ''No image data found in responses'')"
proof -
  let ?r = "stub_remote (answering (Inr (text_response (Some ''no picture'')))) never_done"
  have c: "image_count (count_options 2) = 2"
    by (simp add: image_count_def count_options_def)
  have n: "1 \<le> image_count (count_options 2)" "image_count (count_options 2) \<le> 4294967295"
    by (simp_all add: c)
  have h: "\<forall>i<nat (image_count (count_options 2)).
             \<exists>resp. outcome (generateContent ?r i rq) = Inr resp \<and> \<not> has_inline_binary resp" for rq
    by (simp add: stub_remote_def answering_def has_inline_binary_def text_response_def
          first_candidate_parts_def inline_binary_def)
  from empty_result_error [OF n, of ?r "''a cat''" "[''data:image/png;base64,AAAA'']"] h
  show ?thesis by blast
qed



lemma issued_config:
  assumes "GenerateContent rq \<in> set (fst (generateImageFromText r txt options))
                        \<union> set (fst (generateImageFromImage r refs txt options))"
  shows "config rq = Some (build_imageConfig options)"
  using assms
  by (auto simp: generateImageFromText_def generateImageFromImage_def fan_out_issued
        text_request_def image_request_def split: if_splits)

lemma build_imageConfig_imageSize:
  "imageSize (build_imageConfig options) =
     (if Option.bind options resolution = Some ''2K'' \<or> Option.bind options resolution = Some ''4K''
      then Option.bind options resolution else None)"
  by (auto simp: build_imageConfig_def isHighQuality_def truthy_def Let_def)

lemma build_imageConfig_aspectRatio:
  "cfg_aspectRatio (build_imageConfig options) = or_default (Option.bind options aspectRatio) ''1:1''"
  by (simp add: build_imageConfig_def Let_def)

text \<open>
  C10. In \<open>generateImageFromText\<close> and in \<open>generateImageFromImage\<close>, when
  \<^verbatim>\<open>options.numberOfImages\<close> is absent or 0 exactly one generation call is issued, and a
  call that is fulfilled with an inline binary part gives a list of one URL. In every
  call issued, the image configuration has an \<^verbatim>\<open>imageSize\<close> exactly when the resolution
  is 2K or 4K (it is then that resolution), and its aspect ratio is "1:1" when none is
  supplied.
\<close>

theorem default_count_and_config:
  "(Option.bind options numberOfImages = None \<or> Option.bind options numberOfImages = Some 0 \<longrightarrow>
      fst (generateImageFromText r txt options) = [GenerateContent (text_request txt options)]
      \<and> fst (generateImageFromImage r refs txt options) = [GenerateContent (image_request refs txt options)]
      \<and> (\<forall>resp. outcome (generateContent r 0 (text_request txt options)) = Inr resp \<and> has_inline_binary resp \<longrightarrow>
             (\<exists>u. snd (generateImageFromText r txt options) = Inr [u] \<and> Some u = response_image_url resp))
      \<and> (\<forall>resp. outcome (generateContent r 0 (image_request refs txt options)) = Inr resp \<and> has_inline_binary resp \<longrightarrow>
             (\<exists>u. snd (generateImageFromImage r refs txt options) = Inr [u] \<and> Some u = response_image_url resp)))
   \<and> (\<forall>rq. GenerateContent rq \<in> set (fst (generateImageFromText r txt options))
                                   \<union> set (fst (generateImageFromImage r refs txt options)) \<longrightarrow>
          (\<exists>c. config rq = Some c
             \<and> (imageSize c \<noteq> None \<longleftrightarrow>
                  Option.bind options resolution = Some ''2K'' \<or> Option.bind options resolution = Some ''4K'')
             \<and> (imageSize c \<noteq> None \<longrightarrow> imageSize c = Option.bind options resolution)
             \<and> (Option.bind options aspectRatio = None \<longrightarrow> cfg_aspectRatio c = ''1:1'')))"
proof (intro conjI impI allI)
  assume d: "Option.bind options numberOfImages = None \<or> Option.bind options numberOfImages = Some 0"
  then have c: "image_count options = 1" by (auto simp: image_count_def)
  show "fst (generateImageFromText r txt options) = [GenerateContent (text_request txt options)]"
    by (simp add: generateImageFromText_def fan_out_issued c)
  show "fst (generateImageFromImage r refs txt options) = [GenerateContent (image_request refs txt options)]"
    by (simp add: generateImageFromImage_def fan_out_issued c)
  have one: "\<exists>u. snd (fan_out r 1 rq) = Inr [u] \<and> Some u = response_image_url resp"
    if "outcome (generateContent r 0 rq) = Inr resp \<and> has_inline_binary resp" for rq resp
  proof -
    have "\<forall>i<nat 1. outcome (generateContent r i rq) = Inr (resp) \<and> has_inline_binary (resp)"
      using that by simp
    from fan_out_success [of 1 r rq "\<lambda>_. resp", OF _ _ this]
    obtain urls where u: "snd (fan_out r 1 rq) = Inr urls" "length urls = 1" "Some (urls ! 0) = response_image_url resp"
      by auto
    then have "urls = [urls ! 0]" by (cases urls) auto
    with u show ?thesis by metis
  qed
  show "\<exists>u. snd (generateImageFromText r txt options) = Inr [u] \<and> Some u = response_image_url resp"
    if "outcome (generateContent r 0 (text_request txt options)) = Inr resp \<and> has_inline_binary resp" for resp
    using one [OF that] by (simp add: generateImageFromText_def c)
  show "\<exists>u. snd (generateImageFromImage r refs txt options) = Inr [u] \<and> Some u = response_image_url resp"
    if "outcome (generateContent r 0 (image_request refs txt options)) = Inr resp \<and> has_inline_binary resp" for resp
    using one [OF that] by (simp add: generateImageFromImage_def c)
next
  fix rq
  assume "GenerateContent rq \<in> set (fst (generateImageFromText r txt options))
                        \<union> set (fst (generateImageFromImage r refs txt options))"
  then have "config rq = Some (build_imageConfig options)" by (rule issued_config)
  then show "\<exists>c. config rq = Some c
             \<and> (imageSize c \<noteq> None \<longleftrightarrow>
                  Option.bind options resolution = Some ''2K'' \<or> Option.bind options resolution = Some ''4K'')
             \<and> (imageSize c \<noteq> None \<longrightarrow> imageSize c = Option.bind options resolution)
             \<and> (Option.bind options aspectRatio = None \<longrightarrow> cfg_aspectRatio c = ''1:1'')"
    by (auto simp: build_imageConfig_imageSize build_imageConfig_aspectRatio or_default_def)
qed

theorem default_count_and_config_witness:
  "fst (generateImageFromText (stub_remote reversed_completion never_done) ''a cat'' None)
     = [GenerateContent (text_request ''a cat'' None)]
   \<and> fst (generateImageFromImage (stub_remote reversed_completion never_done) [] ''a cat'' (count_options 0))
     = [GenerateContent (image_request [] ''a cat'' (count_options 0))]
   \<and> (\<exists>u. snd (generateImageFromText (stub_remote reversed_completion never_done) ''a cat'' None) = Inr [u])
   \<and> (\<exists>c. config (text_request ''a cat'' None) = Some c \<and> imageSize c = None \<and> cfg_aspectRatio c = ''1:1'')"
proof -
  let ?r = "stub_remote reversed_completion never_done"
  have d: "Option.bind None numberOfImages = None \<or> Option.bind None numberOfImages = Some 0"
    by simp
  have d0: "Option.bind (count_options 0) numberOfImages = None \<or> Option.bind (count_options 0) numberOfImages = Some 0"
    by (simp add: count_options_def)
  have s: "outcome (generateContent ?r 0 (text_request ''a cat'' None)) = Inr (binary_response ''A'')
           \<and> has_inline_binary (binary_response ''A'')"
    by (simp add: stub_remote_def reversed_completion_def has_inline_binary_def binary_response_def
          first_candidate_parts_def inline_binary_def truthy_def)
  note t = default_count_and_config [of None ?r "''a cat''" "[]"]
  note t0 = default_count_and_config [of "count_options 0" ?r "''a cat''" "[]"]
  have a: "fst (generateImageFromText ?r ''a cat'' None) = [GenerateContent (text_request ''a cat'' None)]"
    using t d by blast
  have b: "fst (generateImageFromImage ?r [] ''a cat'' (count_options 0))
             = [GenerateContent (image_request [] ''a cat'' (count_options 0))]"
    using t0 d0 by blast
  have c: "\<exists>u. snd (generateImageFromText ?r ''a cat'' None) = Inr [u]"
    using t d s by blast
  have m: "GenerateContent (text_request ''a cat'' None) \<in> set (fst (generateImageFromText ?r ''a cat'' None))
                        \<union> set (fst (generateImageFromImage ?r [] ''a cat'' None))"
    by (simp add: a)
  have e: "\<exists>c. config (text_request ''a cat'' None) = Some c \<and> imageSize c = None \<and> cfg_aspectRatio c = ''1:1''"
    using t m by (auto simp: )
  from a b c e show ?thesis by blast
qed

section \<open>Strings\<close>

lemma strip_prefix_iff: "strip_prefix p s = Some rest \<longleftrightarrow> s = p @ rest"
  by (induction p s rule: strip_prefix.induct) auto

lemma js_includes_iff: "js_includes s needle \<longleftrightarrow> (\<exists>a b. s = a @ needle @ b)"
proof (induction s)
  case Nil
  then show ?case by simp
next
  case (Cons c cs)
  show ?case
  proof (cases "strip_prefix needle (c # cs)")
    case (Some rest)
    then have "c # cs = [] @ needle @ rest" by (simp add: strip_prefix_iff)
    then have "\<exists>a b. c # cs = a @ needle @ b" by blast
    with Some show ?thesis by simp
  next
    case None
    then have no: "\<And>b. c # cs \<noteq> needle @ b"
      using strip_prefix_iff [of needle "c # cs"] by auto
    have "(\<exists>a b. c # cs = a @ needle @ b) \<longleftrightarrow> (\<exists>a b. cs = a @ needle @ b)"
    proof
      assume "\<exists>a b. c # cs = a @ needle @ b"
      then obtain a b where ab: "c # cs = a @ needle @ b" by blast
      show "\<exists>a b. cs = a @ needle @ b"
      proof (cases a)
        case Nil
        with ab no show ?thesis by simp
      next
        case (Cons x a')
        with ab have "cs = a' @ needle @ b" by simp
        then show ?thesis by blast
      qed
    next
      assume "\<exists>a b. cs = a @ needle @ b"
      then obtain a b where "cs = a @ needle @ b" by blast
      then have "c # cs = (c # a) @ needle @ b" by simp
      then show "\<exists>a b. c # cs = a @ needle @ b" by blast
    qed
    with None Cons show ?thesis by simp
  qed
qed

section \<open>enhancePrompt\<close>

text \<open>
  C9 (as amended). For every prompt and mode, \<open>enhancePrompt\<close> issues one text-generation
  call. When the call is fulfilled, the result is the trimmed response text if the
  response has a text that is not empty once trimmed, and the original prompt verbatim
  if the response has no text or a text that is empty or blank; the operation does not
  throw then. When the call is rejected, the error is thrown on unchanged.
\<close>

theorem enhancePrompt_result:
  "(\<forall>resp. fst (enhancePrompt r txt type) = [GenerateContent rq] \<and> outcome (generateContent r 0 rq) = Inr resp \<longrightarrow>
      snd (enhancePrompt r txt type) =
        Inr (case response_text resp of
               None \<Rightarrow> txt
             | Some t \<Rightarrow> if trim t = [] then txt else trim t))
   \<and> (\<forall>e. fst (enhancePrompt r txt type) = [GenerateContent rq] \<and> outcome (generateContent r 0 rq) = Inl e \<longrightarrow>
      snd (enhancePrompt r txt type) = Inl e)
   \<and> length (fst (enhancePrompt r txt type)) = 1"
  by (auto simp: enhancePrompt_def Let_def or_default_def split: option.splits)

theorem enhancePrompt_result_witness:
  "snd (enhancePrompt (stub_remote (answering (Inr (text_response (Some '' a dog '')))) never_done) ''a cat'' (Some Video))
     = Inr ''a dog''
   \<and> snd (enhancePrompt (stub_remote (answering (Inr (text_response None))) never_done) ''a cat'' (Some Video))
     = Inr ''a cat''
   \<and> snd (enhancePrompt (stub_remote (answering (Inl (Error ''503''))) never_done) ''a cat'' (Some Video))
     = Inl (Error ''503'')"
proof -
  let ?r = "\<lambda>res. stub_remote (answering res) never_done"
  have f: "fst (enhancePrompt (?r res) ''a cat'' (Some Video)) = [GenerateContent enhance_request]" for res
    by (simp add: enhancePrompt_def enhance_request_def Let_def)
  have o: "outcome (generateContent (?r res) 0 enhance_request) = res" for res
    by (simp add: stub_remote_def answering_def)
  have t: "trim '' a dog '' = ''a dog''"
    by (simp add: trim_def js_whitespace_def)
  have 1: "snd (enhancePrompt (?r (Inr (text_response (Some '' a dog '')))) ''a cat'' (Some Video)) = Inr ''a dog''"
    using enhancePrompt_result [of "?r (Inr (text_response (Some '' a dog '')))" "''a cat''" "Some Video" enhance_request] f o
    by (simp add: text_response_def t)
  have 2: "snd (enhancePrompt (?r (Inr (text_response None))) ''a cat'' (Some Video)) = Inr ''a cat''"
    using enhancePrompt_result [of "?r (Inr (text_response None))" "''a cat''" "Some Video" enhance_request] f o
    by (simp add: text_response_def)
  have 3: "snd (enhancePrompt (?r (Inl (Error ''503''))) ''a cat'' (Some Video)) = Inl (Error ''503'')"
    using enhancePrompt_result [of "?r (Inl (Error ''503''))" "''a cat''" "Some Video" enhance_request] f o
    by simp
  from 1 2 3 show ?thesis by blast
qed

text \<open>
  The claim as it was stated (the trimmed text is returned whenever a text is present)
  fails for a text of two spaces: the text is present and trims to the empty string, and
  the operation returns the original prompt.
\<close>

theorem blank_text_counterexample:
  "response_text (text_response (Some ''  '')) = Some ''  ''
   \<and> trim ''  '' = ''''
   \<and> snd (enhancePrompt (stub_remote (answering (Inr (text_response (Some ''  '')))) never_done) ''a cat'' (Some Image))
       = Inr ''a cat''
   \<and> snd (enhancePrompt (stub_remote (answering (Inr (text_response (Some ''  '')))) never_done) ''a cat'' (Some Image))
       \<noteq> Inr (trim ''  '')"
  by (simp add: enhancePrompt_def Let_def stub_remote_def answering_def text_response_def or_default_def
        trim_def js_whitespace_def)

section \<open>The generation handler\<close>







section \<open>The video poller\<close>

text \<open>An operation that is done after k status calls: the loop makes exactly these k
  calls, each after a sleep, and leaves with the operation of the last one.\<close>

lemma poll_loop_history:
  assumes "\<forall>i<k. op_done (ops (n + i)) \<noteq> Some True
                 \<and> getVideosOperation r (n + i) (ops (n + i)) = Inr (ops (n + Suc i))"
    and "op_done (ops (n + k)) = Some True"
  shows "poll_loop r n (ops n) tr =
           Some (tr @ concat (map (\<lambda>i. [Sleep 5000, GetVideosOperation (ops (n + i))]) [0..<k]),
                 Inr (ops (n + k)))"
  using assms
proof (induction k arbitrary: n tr)
  case 0
  then show ?case by (subst poll_loop.simps) simp
next
  case (Suc k)
  from Suc.prems(1) have first: "op_done (ops n) \<noteq> Some True" "getVideosOperation r n (ops n) = Inr (ops (Suc n))"
    by (metis add.right_neutral zero_less_Suc, metis add.right_neutral add_Suc_right zero_less_Suc)
  have rest: "\<forall>i<k. op_done (ops (Suc n + i)) \<noteq> Some True
                 \<and> getVideosOperation r (Suc n + i) (ops (Suc n + i)) = Inr (ops (Suc n + Suc i))"
    using Suc.prems(1) by (metis Suc_less_eq add_Suc_right add_Suc_shift)
  have last: "op_done (ops (Suc n + k)) = Some True" using Suc.prems(2) by simp
  have tl: "map (\<lambda>i. [Sleep 5000, GetVideosOperation (ops (n + i))]) [0..<Suc k]
            = [Sleep 5000, GetVideosOperation (ops n)]
              # map (\<lambda>i. [Sleep 5000, GetVideosOperation (ops (Suc n + i))]) [0..<k]"
    by (simp add: upt_rec [of 0 "Suc k"] map_Suc_upt [symmetric] del: upt_Suc)
  show ?case
    by (subst poll_loop.simps) (simp add: first Suc.IH [OF rest last] tl del: upt_Suc)
qed

text \<open>
  C5. When the operation is not done as submitted, not done as the first status call
  returns it, and done with a locator as the second status call returns it,
  \<open>generateVideo\<close> sleeps and re-fetches the status exactly twice, and then issues the
  download against the locator of the completed operation (with the key appended); when
  the download succeeds the result is the object URL of the bytes.
\<close>

theorem poll_twice_then_download:
  assumes "generateVideos r (video_request txt inputImage) = Inr op0"
    and "op_done op0 \<noteq> Some True"
    and "getVideosOperation r 0 op0 = Inr op1"
    and "op_done op1 \<noteq> Some True"
    and "getVideosOperation r 1 op1 = Inr op2"
    and "op_done op2 = Some True"
    and "downloadLink op2 = Some u" and "u \<noteq> []"
  shows "\<exists>res. generateVideo r txt inputImage =
           Some ([GenerateVideos (video_request txt inputImage),
                  Sleep 5000, GetVideosOperation op0,
                  Sleep 5000, GetVideosOperation op1,
                  Fetch (u @ ''&key='' @ interpolate (API_KEY r))], res)
         \<and> (\<forall>b. fetch r (u @ ''&key='' @ interpolate (API_KEY r)) = Inr \<lparr>ok = True, blob = Inr b\<rparr>
                \<longrightarrow> res = Inr (createObjectURL r b))"
proof -
  let ?p = "video_request txt inputImage"
  have "poll_loop r 0 op0 [GenerateVideos ?p] =
          Some ([GenerateVideos ?p, Sleep 5000, GetVideosOperation op0, Sleep 5000, GetVideosOperation op1], Inr op2)"
    using assms(2-6)
    by (subst poll_loop.simps, simp, subst poll_loop.simps, simp, subst poll_loop.simps, simp)
  then show ?thesis
    using assms(1,7,8)
    by (auto simp: generateVideo_def Let_def download_def truthy_def interpolate_def
          split: sum.splits)
qed

theorem poll_twice_then_download_witness:
  "generateVideo (stub_remote reversed_completion done_on_third) ''a cat'' None =
     Some ([GenerateVideos (video_request ''a cat'' None),
            Sleep 5000, GetVideosOperation (video_operation False None),
            Sleep 5000, GetVideosOperation (video_operation False None),
            Fetch ''https://videos.example/v1?alt=media&key=KEY''],
           Inr ''blob:bytes'')"
proof -
  let ?r = "stub_remote reversed_completion done_on_third"
  have h: "generateVideos ?r (video_request ''a cat'' None) = Inr (video_operation False None)"
    "op_done (video_operation False None) \<noteq> Some True"
    "getVideosOperation ?r 0 (video_operation False None) = Inr (video_operation False None)"
    "op_done (video_operation False None) \<noteq> Some True"
    "getVideosOperation ?r 1 (video_operation False None)
       = Inr (video_operation True (Some ''https://videos.example/v1?alt=media''))"
    "op_done (video_operation True (Some ''https://videos.example/v1?alt=media'')) = Some True"
    "downloadLink (video_operation True (Some ''https://videos.example/v1?alt=media''))
       = Some ''https://videos.example/v1?alt=media''"
    "''https://videos.example/v1?alt=media'' \<noteq> []"
    by (simp_all add: stub_remote_def done_on_third_def video_operation_def downloadLink_def)
  have f: "fetch ?r url = Inr \<lparr>ok = True, blob = Inr ''bytes''\<rparr>" "createObjectURL ?r b = ''blob:'' @ b"
    "interpolate (API_KEY ?r) = ''KEY''" for url b
    by (simp_all add: stub_remote_def interpolate_def)
  from poll_twice_then_download [OF h] show ?thesis
    by (simp add: f)
qed

text \<open>
  C6. When the operation, after any number k of status calls, is done and its payload
  has no download locator, \<open>generateVideo\<close> throws "Video generation failed or no URI
  returned." and issues no download: its calls are the submission and the k status
  calls.
\<close>

theorem done_without_locator:
  assumes "generateVideos r (video_request txt inputImage) = Inr (ops 0)"
    and "\<forall>i<k. op_done (ops i) \<noteq> Some True \<and> getVideosOperation r i (ops i) = Inr (ops (Suc i))"
    and "op_done (ops k) = Some True"
    and "\<not> truthy (downloadLink (ops k))"
  shows "\<exists>tr. generateVideo r txt inputImage =
                 Some (tr, Inl (Error ''Video generation failed or no URI returned.''))
              \<and> (\<forall>url. Fetch url \<notin> set tr)
              \<and> length (filter (\<lambda>e. \<exists>operation. e = GetVideosOperation operation) tr) = k"
proof -
  let ?p = "video_request txt inputImage"
  let ?polls = "concat (map (\<lambda>i. [Sleep 5000, GetVideosOperation (ops (0 + i))]) [0..<k])"
  have "poll_loop r 0 (ops 0) [GenerateVideos ?p] = Some ([GenerateVideos ?p] @ ?polls, Inr (ops (0 + k)))"
    using assms(2,3) by (intro poll_loop_history) simp_all
  then have g: "generateVideo r txt inputImage =
               Some (GenerateVideos ?p # ?polls, Inl (Error ''Video generation failed or no URI returned.''))"
    using assms(1,4) by (simp add: generateVideo_def Let_def download_def)
  have nf: "\<forall>url. Fetch url \<notin> set (GenerateVideos ?p # ?polls)" by auto
  have "length (filter (\<lambda>e. \<exists>operation. e = GetVideosOperation operation) (concat (map (\<lambda>i. [Sleep 5000, GetVideosOperation (f i)]) xs))) = length xs" for f and xs :: "nat list"
    by (induction xs) auto
  then have "length (filter (\<lambda>e. \<exists>operation. e = GetVideosOperation operation) (GenerateVideos ?p # ?polls)) = k"
    by simp
  with g nf show ?thesis by blast
qed

theorem done_without_locator_witness:
  "generateVideo (stub_remote reversed_completion done_without_uri) ''a cat'' None =
     Some ([GenerateVideos (video_request ''a cat'' None),
            Sleep 5000, GetVideosOperation (video_operation False None)],
           Inl (Error ''Video generation failed or no URI returned.''))"
proof -
  let ?r = "stub_remote reversed_completion done_without_uri"
  have h: "generateVideos ?r (video_request ''a cat'' None) = Inr (done_without_uri 0)"
    "\<forall>i<1. op_done (done_without_uri i) \<noteq> Some True
           \<and> getVideosOperation ?r i (done_without_uri i) = Inr (done_without_uri (Suc i))"
    "op_done (done_without_uri 1) = Some True"
    "\<not> truthy (downloadLink (done_without_uri 1))"
    by (simp_all add: stub_remote_def done_without_uri_def video_operation_def downloadLink_def truthy_def)
  from done_without_locator [OF h] obtain tr where
    "generateVideo ?r ''a cat'' None = Some (tr, Inl (Error ''Video generation failed or no URI returned.''))"
    by blast
  moreover have "map_option fst (generateVideo ?r ''a cat'' None) =
      Some [GenerateVideos (video_request ''a cat'' None), Sleep 5000, GetVideosOperation (video_operation False None)]"
    by (simp add: generateVideo_def Let_def stub_remote_def done_without_uri_def poll_loop.simps
          video_operation_def download_def downloadLink_def truthy_def)
  ultimately show ?thesis by simp
qed

section \<open>Reference images\<close>

text \<open>
  The greedy quantifiers find a match that exists: when the characters of the class are
  followed by one outside it, or when every continuation that succeeds gives the same
  result, backtracking does not change the outcome.
\<close>

lemma star_greedy_range:
  "(\<And>a r. k a r = None \<or> k a r = Some v) \<Longrightarrow>
     star_greedy P k acc s = None \<or> star_greedy P k acc s = Some v"
proof (induction s arbitrary: acc)
  case Nil
  then show ?case by simp
next
  case (Cons c cs)
  from Cons.IH [OF Cons.prems, of "acc @ [c]"] Cons.prems [of acc "c # cs"]
  show ?case by (auto split: option.splits)
qed

lemma star_greedy_const: "star_greedy P (\<lambda>_ _. Some v) acc s = Some v"
  by (induction s arbitrary: acc) auto

lemma star_greedy_here:
  assumes "\<And>a r. k a r = None \<or> k a r = Some v" and "k acc s = Some v"
  shows "star_greedy P k acc s = Some v"
proof (cases s)
  case Nil
  with assms(2) show ?thesis by simp
next
  case (Cons c cs)
  from star_greedy_range [of k v P "acc @ [c]" cs, OF assms(1)]
  show ?thesis using assms(2) Cons by (auto split: option.splits)
qed

lemma star_greedy_hit:
  assumes "\<And>a r. k a r = None \<or> k a r = Some v"
  shows "\<forall>c\<in>set xs. P c \<Longrightarrow> k (acc @ xs) rest = Some v \<Longrightarrow> star_greedy P k acc (xs @ rest) = Some v"
proof (induction xs arbitrary: acc)
  case Nil
  then show ?case using star_greedy_here [OF assms] by simp
next
  case (Cons x xs)
  then have "star_greedy P k (acc @ [x]) (xs @ rest) = Some v" by simp
  with Cons.prems show ?case by simp
qed

lemma plus_greedy_hit:
  "xs \<noteq> [] \<Longrightarrow> \<forall>c\<in>set xs. P c \<Longrightarrow> rest = [] \<or> \<not> P (hd rest) \<Longrightarrow>
     k (acc @ xs) rest = Some v \<Longrightarrow> plus_greedy P k acc (xs @ rest) = Some v"
proof (induction xs arbitrary: acc)
  case Nil
  then show ?case by simp
next
  case (Cons x xs)
  show ?case
  proof (cases "xs = []")
    case True
    have "plus_greedy P k (acc @ [x]) rest = None"
      using Cons.prems(3) by (cases rest) auto
    with Cons.prems True show ?thesis by simp
  next
    case False
    with Cons have "plus_greedy P k (acc @ [x]) (xs @ rest) = Some v" by simp
    with Cons.prems show ?thesis by simp
  qed
qed

lemma strip_prefix_append: "strip_prefix p (p @ s) = Some s"
  by (induction p) auto

lemma mime_match_here_data_uri:
  assumes "a \<noteq> []" "\<forall>c\<in>set a. alnum c" "b \<noteq> []" "\<forall>c\<in>set b. subtype_char c"
    and "\<forall>c\<in>set params. dot c" and "params = [] \<or> \<not> subtype_char (hd params)"
  shows "mime_match_here (''data:'' @ a @ ''/'' @ b @ params @ '','' @ payload) = Some (a @ ''/'' @ b)"
proof -
  let ?v = "a @ ''/'' @ b"
  let ?k3 = "\<lambda>(_::string) r4. case r4 of [] \<Rightarrow> None
                | d # r5 \<Rightarrow> if d = CHR '','' then star_greedy dot (\<lambda>_ _. Some ?v) [] r5 else None"
  have r3: "?k3 x r = None \<or> ?k3 x r = Some ?v" for x :: string and r
    by (cases r) (simp_all add: star_greedy_const)
  have s3: "star_greedy dot ?k3 [] (params @ '','' @ payload) = Some ?v"
    using assms(5) by (intro star_greedy_hit r3) (simp_all add: star_greedy_const)
  let ?k2 = "\<lambda>b' r3. star_greedy dot (\<lambda>(_::string) r4. case r4 of [] \<Rightarrow> None
                | d # r5 \<Rightarrow> if d = CHR '','' then star_greedy dot (\<lambda>_ _. Some (a @ ''/'' @ b')) [] r5 else None) [] r3"
  have nsub: "\<not> subtype_char CHR '',''" by (simp add: subtype_char_def alnum_def)
  have s2: "plus_greedy subtype_char ?k2 [] (b @ (params @ '','' @ payload)) = Some ?v"
  proof (rule plus_greedy_hit)
    show "params @ '','' @ payload = [] \<or> \<not> subtype_char (hd (params @ '','' @ payload))"
      using assms(6) nsub by (cases params) auto
    show "?k2 ([] @ b) (params @ '','' @ payload) = Some ?v" unfolding append_Nil by (rule s3)
  qed (use assms in auto)
  let ?k1 = "\<lambda>a' r1. case r1 of [] \<Rightarrow> None
            | c # r2 \<Rightarrow> if c = CHR ''/'' then
                  plus_greedy subtype_char (\<lambda>b r3.
                    star_greedy dot (\<lambda>(_::string) r4.
                      case r4 of
                        [] \<Rightarrow> None
                      | d # r5 \<Rightarrow>
                          if d = CHR '','' then star_greedy dot (\<lambda>_ _. Some (a' @ ''/'' @ b)) [] r5
                          else None) [] r3) [] r2
                else None"
  have nal: "\<not> alnum CHR ''/''" by (simp add: alnum_def)
  have s1: "plus_greedy alnum ?k1 [] (a @ (''/'' @ b @ params @ '','' @ payload)) = Some ?v"
  proof (rule plus_greedy_hit)
    have "?k1 a (''/'' @ b @ params @ '','' @ payload) = Some ?v"
      using s2 by (simp only: append_Cons append_Nil list.case if_True simp_thms)
    then show "?k1 ([] @ a) (''/'' @ b @ params @ '','' @ payload) = Some ?v"
      unfolding append_Nil .
  qed (use assms nal in auto)
  have "strip_prefix ''data:'' (''data:'' @ a @ ''/'' @ b @ params @ '','' @ payload)
          = Some (a @ (''/'' @ b @ params @ '','' @ payload))"
    by simp
  then show ?thesis unfolding mime_match_here_def using s1 by (simp only: option.case)
qed

lemma mimeType_of_data_uri:
  assumes "a \<noteq> []" "\<forall>c\<in>set a. alnum c" "b \<noteq> []" "\<forall>c\<in>set b. subtype_char c"
    and "\<forall>c\<in>set params. dot c" and "params = [] \<or> \<not> subtype_char (hd params)"
  shows "mimeType_of (''data:'' @ a @ ''/'' @ b @ params @ '','' @ payload) = a @ ''/'' @ b"
proof -
  have "mime_match (''data:'' @ a @ ''/'' @ b @ params @ '','' @ payload) = Some (a @ ''/'' @ b)"
    using mime_match_here_data_uri [OF assms, of payload] by simp
  then show ?thesis using assms(1) by (simp add: mimeType_of_def or_default_def)
qed

lemma whitelisted_data_uri:
  assumes "t \<in> {''png'', ''jpeg'', ''jpg'', ''webp''}"
  shows "cleanBase64 (''data:image/'' @ t @ '';base64,'' @ payload) = payload
         \<and> mimeType_of (''data:image/'' @ t @ '';base64,'' @ payload) = ''image/'' @ t"
proof
  show "cleanBase64 (''data:image/'' @ t @ '';base64,'' @ payload) = payload"
    using assms by (auto simp: cleanBase64_def)
  have "mimeType_of (''data:'' @ ''image'' @ ''/'' @ t @ '';base64'' @ '','' @ payload) = ''image'' @ ''/'' @ t"
    using assms by (intro mimeType_of_data_uri) (auto simp: alnum_def subtype_char_def dot_def)
  then show "mimeType_of (''data:image/'' @ t @ '';base64,'' @ payload) = ''image/'' @ t"
    by simp
qed

text \<open>
  The request of \<open>generateImageFromImage\<close> has one binary part for each reference image,
  in the order of the images, and after them the one text part; the data and the mime
  type of a binary part are computed from its image.
\<close>

lemma reference_parts_in_order:
  assumes "GenerateContent rq \<in> set (fst (generateImageFromImage r refs txt options))"
  shows "\<exists>ps. contents rq = Parts ps \<and> length ps = Suc (length refs)
           \<and> (\<forall>i<length refs.
                 ps ! i = \<lparr>part_text = None,
                            inlineData = Some \<lparr>data = Some (cleanBase64 (refs ! i)),
                                               mimeType = Some (mimeType_of (refs ! i))\<rparr>\<rparr>)
           \<and> ps ! length refs = \<lparr>part_text = Some (refinedPrompt txt), inlineData = None\<rparr>"
proof -
  from assms have "rq = image_request refs txt options"
    by (auto simp: generateImageFromImage_def fan_out_issued split: if_splits)
  then have "contents rq = Parts (image_request_parts refs txt)"
    by (simp add: image_request_def)
  moreover have "length (image_request_parts refs txt) = Suc (length refs)"
    by (simp add: image_request_parts_def)
  moreover have "image_request_parts refs txt ! i =
      \<lparr>part_text = None,
        inlineData = Some \<lparr>data = Some (cleanBase64 (refs ! i)), mimeType = Some (mimeType_of (refs ! i))\<rparr>\<rparr>"
    if "i < length refs" for i
    using that by (simp add: image_request_parts_def nth_append image_part_def)
  moreover have "image_request_parts refs txt ! length refs =
      \<lparr>part_text = Some (refinedPrompt txt), inlineData = None\<rparr>"
    by (simp add: image_request_parts_def nth_append)
  ultimately show ?thesis by blast
qed

text \<open>
  C3. The claim asks that the data of each binary part be the reference image with its
  data-URI prefix stripped, and its mime type the one of that data URI. For the data
  URI of a GIF, as the upload of an image file produces it, \<open>generateImageFromImage\<close>
  sends a part whose data is the whole data URI, prefix included, under the mime type
  image/gif; the PNG before it is stripped as claimed. The pattern that strips the
  prefix lists png, jpeg, jpg and webp only, while the pattern that recovers the mime
  type accepts any type.
\<close>

theorem gif_reference_keeps_prefix:
  "fst (generateImageFromImage (stub_remote reversed_completion never_done)
          [''data:image/png;base64,iVBORw0KGgo'', ''data:image/gif;base64,R0lGODlh''] ''a cat'' None)
   = [GenerateContent
        \<lparr>model = ''gemini-2.5-flash-image'',
         contents = Parts
           [\<lparr>part_text = None,
              inlineData = Some \<lparr>data = Some ''iVBORw0KGgo'', mimeType = Some ''image/png''\<rparr>\<rparr>,
            \<lparr>part_text = None,
              inlineData = Some \<lparr>data = Some ''data:image/gif;base64,R0lGODlh'',
                                 mimeType = Some ''image/gif''\<rparr>\<rparr>,
            \<lparr>part_text = Some (refinedPrompt ''a cat''), inlineData = None\<rparr>],
         config = Some \<lparr>cfg_aspectRatio = ''1:1'', imageSize = None\<rparr>\<rparr>]"
proof -
  have png: "cleanBase64 ''data:image/png;base64,iVBORw0KGgo'' = ''iVBORw0KGgo''"
    by (simp add: cleanBase64_def)
  have gif: "cleanBase64 ''data:image/gif;base64,R0lGODlh'' = ''data:image/gif;base64,R0lGODlh''"
    by (simp add: cleanBase64_def)
  have mpng: "mimeType_of ''data:image/png;base64,iVBORw0KGgo'' = ''image/png''"
    by (simp add: mimeType_of_def mime_match_here_def or_default_def alnum_def subtype_char_def dot_def)
  have mgif: "mimeType_of ''data:image/gif;base64,R0lGODlh'' = ''image/gif''"
    by (simp add: mimeType_of_def mime_match_here_def or_default_def alnum_def subtype_char_def dot_def)
  have cfg: "build_imageConfig None = \<lparr>cfg_aspectRatio = ''1:1'', imageSize = None\<rparr>"
    by (simp add: build_imageConfig_def isHighQuality_def or_default_def)
  show ?thesis
    by (simp add: generateImageFromImage_def fan_out_issued image_count_def image_request_def
          image_request_parts_def image_part_def isHighQuality_def png gif mpng mgif cfg)
qed

end
